theory Spec2Isabelle
  imports
    Main
    "HOL-Library.Char_ord"
    "HOL-Library.List_Lexorder"
    "HOL-Library.Product_Lexorder"
    "HOL-Library.Multiset"
begin

section \<open>Go strings\<close>

text \<open>
  A Go \<^verbatim>\<open>string\<close> is a sequence of bytes, here a \<^typ>\<open>string\<close> (a list of 8-bit
  \<^typ>\<open>char\<close>). Go compares strings byte by byte, which is the lexicographic order of
  \<^typ>\<open>char list\<close> over the byte order of \<^typ>\<open>char\<close>.

  The functions of package \<^verbatim>\<open>strings\<close> that the program calls are written out below.
  \<^verbatim>\<open>strings.ToLower\<close> and \<^verbatim>\<open>strings.TrimSpace\<close> are given on ASCII text: the letters
  \<^verbatim>\<open>A\<close> to \<^verbatim>\<open>Z\<close> are lower-cased and the six ASCII white-space bytes are trimmed; Go
  also maps upper-case letters and trims white space outside ASCII. The general theorems
  below hold for any lower-casing and trimming: they use of \<open>ToLower\<close> only that it
  leaves the empty string empty, and the examples that evaluate the two are ASCII text.
\<close>

definition lower_byte :: "char \<Rightarrow> char" where
  "lower_byte c =
     (case map_of (zip ''ABCDEFGHIJKLMNOPQRSTUVWXYZ'' ''abcdefghijklmnopqrstuvwxyz'') c of
        Some d \<Rightarrow> d
      | None \<Rightarrow> c)"

definition ToLower :: "string \<Rightarrow> string" where
  "ToLower s = map lower_byte s"

fun HasPrefix :: "string \<Rightarrow> string \<Rightarrow> bool" where
  "HasPrefix s [] = True"
| "HasPrefix [] (c # cs) = False"
| "HasPrefix (x # xs) (c # cs) = (x = c \<and> HasPrefix xs cs)"

definition HasSuffix :: "string \<Rightarrow> string \<Rightarrow> bool" where
  "HasSuffix s suffix = HasPrefix (rev s) (rev suffix)"

fun Contains :: "string \<Rightarrow> string \<Rightarrow> bool" where
  "Contains [] substr = (substr = [])"
| "Contains (x # xs) substr = (HasPrefix (x # xs) substr \<or> Contains xs substr)"

fun Join :: "string list \<Rightarrow> string \<Rightarrow> string" where
  "Join [] sep = []"
| "Join [x] sep = x"
| "Join (x # y # ys) sep = x @ sep @ Join (y # ys) sep"

definition isSpace :: "char \<Rightarrow> bool" where
  "isSpace c = (c = CHR '' '' \<or> c = CHR 0x09 \<or> c = CHR 0x0A \<or> c = CHR 0x0B
                \<or> c = CHR 0x0C \<or> c = CHR 0x0D)"

definition TrimSpace :: "string \<Rightarrow> string" where
  "TrimSpace s = rev (dropWhile isSpace (rev (dropWhile isSpace s)))"

text \<open>\<^verbatim>\<open>strings.LastIndex(s, "/")\<close>: the index of the last \<^verbatim>\<open>/\<close>, or \<open>-1\<close>.\<close>

definition LastIndex :: "string \<Rightarrow> char \<Rightarrow> int" where
  "LastIndex s c =
     (if c \<in> set s then int (length s) - 1 - int (length (takeWhile (\<lambda>x. x \<noteq> c) (rev s)))
      else - 1)"

text \<open>The slice expression \<^verbatim>\<open>xs[len(xs)-n:]\<close> guarded by \<^verbatim>\<open>len(xs) > n\<close>.\<close>

definition lastN :: "nat \<Rightarrow> 'a list \<Rightarrow> 'a list" where
  "lastN n xs = (if length xs > n then drop (length xs - n) xs else xs)"

section \<open>Windows and the AI identifier\<close>

record foregroundProcess =
  Pid :: int
  proc_Cwd :: string
  Cmdline :: "string list"

record kittyWindow =
  win_ID :: int
  win_Title :: string
  win_Cwd :: string
  ForegroundProcesses :: "foregroundProcess list"

text \<open>The path basename that \<^verbatim>\<open>extractAI\<close> computes for a token.\<close>

definition basename :: "string \<Rightarrow> string" where
  "basename arg =
     (let idx = LastIndex arg (CHR ''/'')
      in if idx \<ge> 0 then drop (nat (idx + 1)) arg else arg)"

text \<open>The test \<^verbatim>\<open>extractAI\<close> makes on one token and one prefix (either \<^verbatim>\<open>return p, true\<close>).\<close>

definition argMatches :: "string \<Rightarrow> string \<Rightarrow> bool" where
  "argMatches arg p =
     (let argLower = ToLower arg;
          baseLower = ToLower (basename arg)
      in baseLower = p
         \<or> Contains argLower (''/'' @ p @ ''/'') \<or> Contains argLower (''/'' @ p))"

text \<open>The loop over the prefixes, for one token.\<close>

fun scanPrefixes :: "string \<Rightarrow> string list \<Rightarrow> string option" where
  "scanPrefixes arg [] = None"
| "scanPrefixes arg (p # ps) = (if argMatches arg p then Some p else scanPrefixes arg ps)"

text \<open>The loop over the tokens of one command line.\<close>

fun scanCmdline :: "string list \<Rightarrow> string list \<Rightarrow> string option" where
  "scanCmdline [] prefixes = None"
| "scanCmdline (arg # args) prefixes =
     (case scanPrefixes arg prefixes of
        Some p \<Rightarrow> Some p
      | None \<Rightarrow> scanCmdline args prefixes)"

text \<open>The loop over the foreground processes; an empty command line is skipped.\<close>

fun scanProcesses :: "foregroundProcess list \<Rightarrow> string list \<Rightarrow> string option" where
  "scanProcesses [] prefixes = None"
| "scanProcesses (proc # procs) prefixes =
     (if length (Cmdline proc) = 0 then scanProcesses procs prefixes
      else (case scanCmdline (Cmdline proc) prefixes of
              Some p \<Rightarrow> Some p
            | None \<Rightarrow> scanProcesses procs prefixes))"

definition extractAI :: "kittyWindow \<Rightarrow> string list \<Rightarrow> string \<times> bool" where
  "extractAI win prefixes =
     (case scanProcesses (ForegroundProcesses win) prefixes of
        Some p \<Rightarrow> (p, True)
      | None \<Rightarrow> ('''', False))"

section \<open>The status classifier\<close>

text \<open>
  \<^verbatim>\<open>inferStatus\<close> of \<^verbatim>\<open>cmd/lazyccg/main.go\<close>, the classifier of the variant that keeps
  fingerprints. The last line is read only when \<open>lines\<close> is not empty.
\<close>

definition inferStatus :: "string list \<Rightarrow> string" where
  "inferStatus lines =
     (if length lines = 0 then ''IDLE''
      else
        let lastLine = TrimSpace (last lines);
            lastLineLower = ToLower lastLine;
            recentLines = lastN 10 lines;
            recentText = ToLower (Join recentLines '' '')
        in if Contains recentText ''waiting''
              \<or> Contains recentText ''approval''
              \<or> Contains recentText ''confirm''
              \<or> Contains recentText ''press enter''
           then ''WAITING''
           else if lastLine = ''>'' \<or> lastLine = ''>>''
              \<or> HasPrefix lastLine ''> ''
              \<or> HasPrefix lastLine ''$ ''
              \<or> HasPrefix lastLine ''% ''
              \<or> HasSuffix lastLine '' >''
              \<or> Contains lastLineLower ''context left''
              \<or> Contains lastLineLower ''? for shortcuts''
              \<or> Contains recentText ''accept edits''
              \<or> Contains recentText ''crunched for''
              \<or> Contains recentText ''brewed for''
              \<or> Contains recentText ''worked for''
           then ''IDLE''
           else ''IDLE'')"

text \<open>
  The status that \<^verbatim>\<open>loadSessions\<close> of \<^verbatim>\<open>cmd/lazyccg/main.go\<close> gives one window: the
  fingerprint of the last five lines, its comparison with the fingerprint of the previous
  poll, the busy marker, and \<^verbatim>\<open>inferStatus\<close> otherwise. \<open>prevHashes\<close> is the fingerprint
  table of the previous poll and \<open>winID\<close> the window's id.
\<close>

definition currentHash :: "string list \<Rightarrow> string" where
  "currentHash lines = Join (lastN 5 lines) [CHR 0x0A]"

definition loadSessions_status :: "(int \<rightharpoonup> string) \<Rightarrow> int \<Rightarrow> string list \<Rightarrow> string" where
  "loadSessions_status prevHashes winID lines =
     (let hashLines = lastN 5 lines;
          outputChanged =
            (case prevHashes winID of
               Some prevHash \<Rightarrow> currentHash lines \<noteq> prevHash
             | None \<Rightarrow> False);
          recentText = ToLower (Join hashLines '' '');
          hasActiveIndicator = Contains recentText ''ctrl+c to interrupt''
      in if outputChanged \<or> hasActiveIndicator then ''RUNNING'' else inferStatus lines)"

text \<open>
  \<^verbatim>\<open>inferStatus\<close> of the variants of the program that keep no fingerprint
  (\<^verbatim>\<open>src/unnamed/part_001\<close>, lines 885 to 924, and the same function in
  \<^verbatim>\<open>src/unnamed/part_002\<close>). There \<^verbatim>\<open>loadSessions\<close> takes the status of a window from
  this function alone.
\<close>

definition inferStatus_heuristic :: "string list \<Rightarrow> string" where
  "inferStatus_heuristic lines =
     (if length lines = 0 then ''IDLE''
      else
        let lastLine = TrimSpace (last lines);
            lastLineLower = ToLower lastLine
        in if HasPrefix lastLine ''> ''
              \<or> HasPrefix lastLine ''$ ''
              \<or> HasPrefix lastLine ''% ''
              \<or> HasSuffix lastLine ''> ''
              \<or> HasSuffix lastLine ''$ ''
              \<or> HasSuffix lastLine ''% ''
              \<or> Contains lastLineLower ''context left''
              \<or> Contains lastLineLower ''? for shortcuts''
           then ''IDLE''
           else
             let chunk = ToLower (Join (lastN 20 lines) '' '')
             in if Contains chunk ''waiting''
                   \<or> Contains chunk ''approval''
                   \<or> Contains chunk ''confirm''
                   \<or> Contains chunk ''press enter''
                then ''WAITING''
                else if Contains chunk ''done''
                   \<or> Contains chunk ''finished''
                   \<or> Contains chunk ''complete''
                then ''DONE''
                else ''RUNNING'')"

text \<open>
  The rules of \<^verbatim>\<open>inferStatus\<close> in the variant without fingerprints, one predicate per
  \<^verbatim>\<open>if\<close> of the source, to state which rule fired.
\<close>

definition chunk_heuristic :: "string list \<Rightarrow> string" where
  "chunk_heuristic lines = ToLower (Join (lastN 20 lines) '' '')"

definition promptRule_heuristic :: "string list \<Rightarrow> bool" where
  "promptRule_heuristic lines =
     (let lastLine = TrimSpace (last lines)
      in HasPrefix lastLine ''> '' \<or> HasPrefix lastLine ''$ '' \<or> HasPrefix lastLine ''% ''
         \<or> HasSuffix lastLine ''> '' \<or> HasSuffix lastLine ''$ '' \<or> HasSuffix lastLine ''% ''
         \<or> Contains (ToLower lastLine) ''context left''
         \<or> Contains (ToLower lastLine) ''? for shortcuts'')"

definition waitingRule :: "string \<Rightarrow> bool" where
  "waitingRule text =
     (Contains text ''waiting'' \<or> Contains text ''approval''
      \<or> Contains text ''confirm'' \<or> Contains text ''press enter'')"

definition doneRule :: "string \<Rightarrow> bool" where
  "doneRule text =
     (Contains text ''done'' \<or> Contains text ''finished'' \<or> Contains text ''complete'')"

text \<open>
  The match condition as the specification words it, to compare with \<open>argMatches\<close>: the
  lower-cased basename equals the prefix, or the lower-cased token contains
  \<^verbatim>\<open>/<prefix>/\<close> or ends with \<^verbatim>\<open>/<prefix>\<close>.
\<close>

definition spec_tokenMatch :: "string \<Rightarrow> string \<Rightarrow> bool" where
  "spec_tokenMatch t p =
     (ToLower (basename t) = p
      \<or> Contains (ToLower t) (''/'' @ p @ ''/'') \<or> HasSuffix (ToLower t) (''/'' @ p))"

section \<open>Sessions and their order\<close>

record session =
  TabID :: int
  WindowID :: int
  Title :: string
  AI :: string
  Status :: string
  Lines :: "string list"
  Updated :: nat
  Cwd :: string
  OutputHash :: string





section \<open>The interaction state machine\<close>

text \<open>
  The \<^verbatim>\<open>model\<close> struct. \<^verbatim>\<open>err\<close> is \<open>None\<close> for \<^verbatim>\<open>nil\<close>; times are clock ticks;
  \<^verbatim>\<open>renameInput\<close> (a slice of runes) and the titles are both sequences of characters,
  so the conversions \<^verbatim>\<open>[]rune(title)\<close> and \<^verbatim>\<open>string(m.renameInput)\<close> are the identity.
\<close>

record model =
  width :: int
  height :: int
  selected :: int
  sessions :: "session list"
  err :: "string option"
  pollEvery :: nat
  prefixes :: "string list"
  maxLines :: int
  lastUpdate :: nat
  renaming :: bool
  renameInput :: string
  focusedPanel :: int
  statusFilter :: string
  statusSelected :: int
  prevHashes :: "int \<rightharpoonup> string"

text \<open>The model that \<^verbatim>\<open>main\<close> builds: every field it does not set is Go's zero value.\<close>

definition initModel :: "nat \<Rightarrow> string list \<Rightarrow> int \<Rightarrow> model" where
  "initModel poll pfx maxl =
     \<lparr>width = 0, height = 0, selected = 0, sessions = [], err = None, pollEvery = poll,
      prefixes = pfx, maxLines = maxl, lastUpdate = 0, renaming = False, renameInput = [],
      focusedPanel = 0, statusFilter = [], statusSelected = 0, prevHashes = Map.empty\<rparr>"

text \<open>
  A key message of the UI library: its type, its runes and the alt modifier. \<open>KeyOther\<close>
  stands for every key type that \<^verbatim>\<open>Update\<close> does not name. \<open>key_String\<close> is the
  library's \<^verbatim>\<open>String()\<close>: the runes of a \<open>KeyRunes\<close> message, the name of the key
  otherwise, after \<^verbatim>\<open>alt+\<close> when the modifier is set.
\<close>

datatype keyType =
  KeyEnter | KeyEsc | KeyBackspace | KeySpace | KeyRunes | KeyTab | KeyUp | KeyDown
  | KeyCtrlC | KeyOther

record keyMsg =
  key_Type :: keyType
  key_Runes :: string
  key_Alt :: bool

definition keyNames :: "keyType \<Rightarrow> string" where
  "keyNames t =
     (case t of
        KeyEnter \<Rightarrow> ''enter'' | KeyEsc \<Rightarrow> ''esc'' | KeyBackspace \<Rightarrow> ''backspace''
      | KeySpace \<Rightarrow> '' '' | KeyRunes \<Rightarrow> ''runes'' | KeyTab \<Rightarrow> ''tab'' | KeyUp \<Rightarrow> ''up''
      | KeyDown \<Rightarrow> ''down'' | KeyCtrlC \<Rightarrow> ''ctrl+c'' | KeyOther \<Rightarrow> ''other'')"

definition key_String :: "keyMsg \<Rightarrow> string" where
  "key_String k =
     (if key_Alt k then ''alt+'' else []) @
     (if key_Type k = KeyRunes then key_Runes k else keyNames (key_Type k))"

text \<open>
  The messages \<^verbatim>\<open>Update\<close> switches on, and the commands it returns. A command is a
  closure in the source; here it is the description of the call the closure makes.
  \<open>ErrorMsg\<close> is a message that is an \<^verbatim>\<open>error\<close>, \<open>OtherMsg\<close> any message of another type.
\<close>

datatype msg =
  KeyMsg keyMsg
  | WindowSizeMsg int int
  | TickMsg
  | SessionsMsg "session list" "int \<rightharpoonup> string"
  | RenameResultMsg "string option"
  | ErrorMsg string
  | OtherMsg

datatype cmd =
  NoCmd
  | Quit
  | FocusCmd int
  | RenameCmd int string
  | RefreshAndTick "int \<rightharpoonup> string"

text \<open>The loop of \<^verbatim>\<open>filteredSessions\<close>, with the slice \<^verbatim>\<open>filtered\<close> as accumulator.\<close>

fun filterLoop :: "string \<Rightarrow> session list \<Rightarrow> session list \<Rightarrow> session list" where
  "filterLoop f filtered [] = filtered"
| "filterLoop f filtered (s # ss) =
     filterLoop f (if Status s = f then filtered @ [s] else filtered) ss"

definition filteredSessions :: "model \<Rightarrow> session list" where
  "filteredSessions m =
     (if statusFilter m = [] then sessions m
      else filterLoop (statusFilter m) [] (sessions m))"

text \<open>The two loops of \<^verbatim>\<open>availableStatuses\<close>; a missing key of the Go map counts 0.\<close>

fun countLoop :: "(string \<Rightarrow> nat) \<Rightarrow> session list \<Rightarrow> (string \<Rightarrow> nat)" where
  "countLoop statusCount [] = statusCount"
| "countLoop statusCount (s # ss) =
     countLoop (statusCount(Status s := statusCount (Status s) + 1)) ss"

fun orderLoop :: "(string \<Rightarrow> nat) \<Rightarrow> string list \<Rightarrow> string list \<Rightarrow> string list" where
  "orderLoop statusCount result [] = result"
| "orderLoop statusCount result (status # rest) =
     orderLoop statusCount (if statusCount status > 0 then result @ [status] else result) rest"

definition availableStatuses :: "model \<Rightarrow> string list" where
  "availableStatuses m =
     (let statusOrder = [''RUNNING'', ''IDLE'', ''WAITING'', ''DONE''];
          statusCount = countLoop (\<lambda>_. 0) (sessions m)
      in orderLoop statusCount [] statusOrder)"

text \<open>Go's \<^verbatim>\<open>%\<close> on integers truncates towards zero.\<close>

definition go_rem :: "int \<Rightarrow> int \<Rightarrow> int" where
  "go_rem a b = sgn a * (\<bar>a\<bar> mod \<bar>b\<bar>)"

text \<open>
  The key switch of \<^verbatim>\<open>Update\<close> while renaming: every branch ends in
  \<^verbatim>\<open>return m, nil\<close> but a confirmed rename.
\<close>

definition updateRenaming :: "keyMsg \<Rightarrow> model \<Rightarrow> model \<times> cmd" where
  "updateRenaming k m =
     (case key_Type k of
        KeyEnter \<Rightarrow>
          (let filtered = filteredSessions m
           in if length filtered > 0 \<and> selected m \<ge> 0 \<and> selected m < int (length filtered)
              then (m\<lparr>renaming := False, renameInput := []\<rparr>,
                    RenameCmd (WindowID (filtered ! nat (selected m))) (renameInput m))
              else (m\<lparr>renaming := False, renameInput := []\<rparr>, NoCmd))
      | KeyEsc \<Rightarrow> (m\<lparr>renaming := False, renameInput := []\<rparr>, NoCmd)
      | KeyBackspace \<Rightarrow>
          (if length (renameInput m) > 0
           then (m\<lparr>renameInput := take (length (renameInput m) - 1) (renameInput m)\<rparr>, NoCmd)
           else (m, NoCmd))
      | KeySpace \<Rightarrow> (m\<lparr>renameInput := renameInput m @ '' ''\<rparr>, NoCmd)
      | KeyRunes \<Rightarrow> (m\<lparr>renameInput := renameInput m @ key_Runes k\<rparr>, NoCmd)
      | _ \<Rightarrow> (m, NoCmd))"

text \<open>The key switch of \<^verbatim>\<open>Update\<close> while browsing, on \<^verbatim>\<open>msg.String()\<close>.\<close>

definition updateBrowsing :: "keyMsg \<Rightarrow> model \<Rightarrow> model \<times> cmd" where
  "updateBrowsing k m =
     (let s = key_String k in
      if s = ''q'' \<or> s = ''ctrl+c'' then (m, Quit)
      else if s = ''tab'' then (m\<lparr>focusedPanel := go_rem (focusedPanel m + 1) 2\<rparr>, NoCmd)
      else if s = ''esc'' then (m\<lparr>statusFilter := [], focusedPanel := 0\<rparr>, NoCmd)
      else if s = ''enter'' then
        (if focusedPanel m = 0 then
           (let filtered = filteredSessions m
            in if length filtered > 0 \<and> selected m \<ge> 0 \<and> selected m < int (length filtered)
               then (m, FocusCmd (WindowID (filtered ! nat (selected m))))
               else (m, NoCmd))
         else
           (let statuses = availableStatuses m
            in if statusSelected m \<ge> 0 \<and> statusSelected m < int (length statuses)
               then (let sel = statuses ! nat (statusSelected m)
                     in (m\<lparr>statusFilter := (if statusFilter m = sel then [] else sel),
                           selected := 0, focusedPanel := 0\<rparr>, NoCmd))
               else (m, NoCmd)))
      else if s = ''r'' then
        (if focusedPanel m = 0 then
           (let filtered = filteredSessions m
            in if length filtered > 0 \<and> selected m \<ge> 0 \<and> selected m < int (length filtered)
               then (m\<lparr>renaming := True,
                        renameInput := Title (filtered ! nat (selected m))\<rparr>, NoCmd)
               else (m, NoCmd))
         else (m, NoCmd))
      else if s = ''up'' \<or> s = ''k'' then
        (if focusedPanel m = 0 then
           (if selected m > 0 then (m\<lparr>selected := selected m - 1\<rparr>, NoCmd) else (m, NoCmd))
         else
           (let statuses = availableStatuses m
            in if statusSelected m > 0
               then (m\<lparr>statusSelected := statusSelected m - 1\<rparr>, NoCmd)
               else (m\<lparr>statusSelected := int (length statuses) - 1\<rparr>, NoCmd)))
      else if s = ''down'' \<or> s = ''j'' then
        (if focusedPanel m = 0 then
           (let filtered = filteredSessions m
            in if selected m < int (length filtered) - 1
               then (m\<lparr>selected := selected m + 1\<rparr>, NoCmd)
               else (m, NoCmd))
         else
           (let statuses = availableStatuses m
            in if statusSelected m < int (length statuses) - 1
               then (m\<lparr>statusSelected := statusSelected m + 1\<rparr>, NoCmd)
               else (m\<lparr>statusSelected := 0\<rparr>, NoCmd)))
      else (m, NoCmd))"

text \<open>The clamp of the selection in the \<^verbatim>\<open>sessionsMsg\<close> case.\<close>

definition clampSelected :: "model \<Rightarrow> model" where
  "clampSelected m =
     (if selected m \<ge> int (length (sessions m))
      then (let m1 = m\<lparr>selected := int (length (sessions m)) - 1\<rparr>
            in if selected m1 < 0 then m1\<lparr>selected := 0\<rparr> else m1)
      else m)"

text \<open>\<^verbatim>\<open>Update\<close>; \<open>now\<close> is what \<^verbatim>\<open>time.Now()\<close> returns during the call.\<close>

definition Update :: "nat \<Rightarrow> msg \<Rightarrow> model \<Rightarrow> model \<times> cmd" where
  "Update now message m =
     (case message of
        KeyMsg k \<Rightarrow> (if renaming m then updateRenaming k m else updateBrowsing k m)
      | WindowSizeMsg w h \<Rightarrow> (m\<lparr>width := w, height := h\<rparr>, NoCmd)
      | TickMsg \<Rightarrow> (m, RefreshAndTick (prevHashes m))
      | SessionsMsg ss hashes \<Rightarrow>
          ((clampSelected (m\<lparr>sessions := ss, prevHashes := hashes\<rparr>))\<lparr>lastUpdate := now\<rparr>, NoCmd)
      | RenameResultMsg e \<Rightarrow>
          ((case e of Some x \<Rightarrow> m\<lparr>err := Some x\<rparr> | None \<Rightarrow> m)\<lparr>lastUpdate := now\<rparr>, NoCmd)
      | ErrorMsg e \<Rightarrow> (m\<lparr>err := Some e, lastUpdate := now\<rparr>, NoCmd)
      | OtherMsg \<Rightarrow> (m, NoCmd))"

text \<open>
  The message that the closure of \<^verbatim>\<open>refreshCmd\<close> returns, from what \<^verbatim>\<open>loadSessions\<close>
  returned: its error (\<open>Inl\<close>), or the sessions and the new fingerprint table.
\<close>

definition refreshCmd_msg :: "string + session list \<times> (int \<rightharpoonup> string) \<Rightarrow> msg" where
  "refreshCmd_msg r = (case r of Inl e \<Rightarrow> ErrorMsg e | Inr (ss, hashes) \<Rightarrow> SessionsMsg ss hashes)"

text \<open>The event loop: the messages arrive one at a time, each with the time of its call.\<close>

fun run :: "(nat \<times> msg) list \<Rightarrow> model \<Rightarrow> model" where
  "run [] m = m"
| "run ((now, message) # rest) m = run rest (fst (Update now message m))"

text \<open>The selection invariant, as the specification states it.\<close>

definition selectionInvariant :: "model \<Rightarrow> bool" where
  "selectionInvariant m =
     (if filteredSessions m = [] then selected m = 0
      else 0 \<le> selected m \<and> selected m < int (length (filteredSessions m)))"


text \<open>Sessions, keys and windows for the examples.\<close>

definition mkSession :: "int \<Rightarrow> string \<Rightarrow> string \<Rightarrow> string \<Rightarrow> session" where
  "mkSession wid ai title status =
     \<lparr>TabID = 1, WindowID = wid, Title = title, AI = ai, Status = status, Lines = [],
      Updated = 0, Cwd = [], OutputHash = []\<rparr>"

definition mkKey :: "keyType \<Rightarrow> string \<Rightarrow> keyMsg" where
  "mkKey t r = \<lparr>key_Type = t, key_Runes = r, key_Alt = False\<rparr>"

definition mkWindow :: "string list list \<Rightarrow> kittyWindow" where
  "mkWindow cmdlines =
     \<lparr>win_ID = 1, win_Title = [], win_Cwd = [],
      ForegroundProcesses = map (\<lambda>c. \<lparr>Pid = 0, proc_Cwd = [], Cmdline = c\<rparr>) cmdlines\<rparr>"

section \<open>Evaluation of the string functions\<close>

lemmas string_eval =
  ToLower_def lower_byte_def TrimSpace_def isSpace_def HasSuffix_def lastN_def

section \<open>The AI identifier: first match wins\<close>

lemma scanPrefixes_None:
  "scanPrefixes arg ps = None \<longleftrightarrow> (\<forall>q \<in> set ps. \<not> argMatches arg q)"
  by (induction ps) auto

lemma scanPrefixes_Some: "scanPrefixes arg ps = Some q \<Longrightarrow> q \<in> set ps \<and> argMatches arg q"
  by (induction ps) (auto split: if_splits)

lemma scanPrefixes_first:
  "p \<in> set ps \<Longrightarrow> argMatches arg p
   \<Longrightarrow> \<forall>q \<in> set (takeWhile (\<lambda>q. q \<noteq> p) ps). \<not> argMatches arg q
   \<Longrightarrow> scanPrefixes arg ps = Some p"
  by (induction ps) auto

lemma scanCmdline_None:
  "scanCmdline args ps = None \<longleftrightarrow> (\<forall>a \<in> set args. \<forall>q \<in> set ps. \<not> argMatches a q)"
proof -
  have "scanCmdline args ps = None \<longleftrightarrow> (\<forall>a \<in> set args. scanPrefixes a ps = None)"
    by (induction args) (auto split: option.splits)
  then show ?thesis by (simp add: scanPrefixes_None)
qed

lemma scanCmdline_Some: "scanCmdline args ps = Some q \<Longrightarrow> q \<in> set ps"
  by (induction args) (auto split: option.splits dest: scanPrefixes_Some)

lemma scanCmdline_append:
  "scanCmdline pre ps = None \<Longrightarrow> scanCmdline (pre @ rest) ps = scanCmdline rest ps"
  by (induction pre) (auto split: option.splits)

lemma scanProcesses_None:
  "scanProcesses procs ps = None \<longleftrightarrow>
     (\<forall>pr \<in> set procs. \<forall>a \<in> set (Cmdline pr). \<forall>q \<in> set ps. \<not> argMatches a q)"
proof -
  have "scanProcesses procs ps = None
          \<longleftrightarrow> (\<forall>pr \<in> set procs. scanCmdline (Cmdline pr) ps = None)"
    by (induction procs) (auto split: option.splits)
  then show ?thesis by (simp add: scanCmdline_None)
qed

lemma scanProcesses_Some: "scanProcesses procs ps = Some q \<Longrightarrow> q \<in> set ps"
  by (induction procs) (auto split: option.splits if_splits dest: scanCmdline_Some)

lemma scanProcesses_append:
  "scanProcesses before ps = None
   \<Longrightarrow> scanProcesses (before @ rest) ps = scanProcesses rest ps"
  by (induction before) (auto split: option.splits if_splits)

lemma argMatches_basename: "ToLower (basename t) = p \<Longrightarrow> argMatches t p"
  by (simp add: argMatches_def)

text \<open>
  \<^verbatim>\<open>extractAI\<close> reports a window as found exactly when one of its tokens passes the test
  of the code for one of the prefixes; a process with an empty command line adds nothing.
\<close>

lemma extractAI_found_iff:
  "snd (extractAI win ps) \<longleftrightarrow>
     (\<exists>pr \<in> set (ForegroundProcesses win). \<exists>a \<in> set (Cmdline pr). \<exists>q \<in> set ps.
        argMatches a q)"
  using scanProcesses_None [of "ForegroundProcesses win" ps]
  by (cases "scanProcesses (ForegroundProcesses win) ps") (simp_all add: extractAI_def)

text \<open>
  Claim C5, as stated: whenever the lower-cased basename of a token \<open>t\<close> of the window
  equals a configured prefix \<open>p\<close>, \<^verbatim>\<open>extractAI\<close> returns \<open>(p, true)\<close>. It fails: the window
  whose only token is \<^verbatim>\<open>/opt/codex/bin/claude\<close> has basename \<^verbatim>\<open>claude\<close>, yet with the
  default prefixes the answer is \<^verbatim>\<open>codex\<close>, because \<^verbatim>\<open>codex\<close> is tried first and the
  token contains \<^verbatim>\<open>/codex/\<close>.
\<close>

theorem basename_first_match_counterexample:
  "ToLower (basename ''/opt/codex/bin/claude'') = ''claude''
   \<and> extractAI (mkWindow [[''/opt/codex/bin/claude'']]) [''codex'', ''claude'', ''gemini'']
       = (''codex'', True)"
  by (simp add: extractAI_def mkWindow_def argMatches_def basename_def LastIndex_def
      ToLower_def lower_byte_def)

text \<open>
  Claim C5, amended: when the lower-cased basename of a token \<open>t\<close> of the window equals a
  configured prefix \<open>p\<close>, \<^verbatim>\<open>extractAI\<close> reports the window as found, with a configured
  prefix; and the prefix it returns is \<open>p\<close> itself when the first match is this one: no
  token of an earlier process (\<open>before\<close>) and no earlier token of the same command line
  (\<open>pre\<close>) matches any prefix, and no prefix listed before \<open>p\<close> matches \<open>t\<close>.
\<close>

theorem extractAI_basename:
  assumes win: "ForegroundProcesses win = before @ proc # after"
      and cmd: "Cmdline proc = pre @ t # post"
      and p: "p \<in> set ps"
      and base: "ToLower (basename t) = p"
  shows "(\<exists>q \<in> set ps. extractAI win ps = (q, True)) \<and>
         ((\<forall>pr \<in> set before. \<forall>a \<in> set (Cmdline pr). \<forall>q \<in> set ps. \<not> argMatches a q)
          \<and> (\<forall>a \<in> set pre. \<forall>q \<in> set ps. \<not> argMatches a q)
          \<and> (\<forall>q \<in> set (takeWhile (\<lambda>q. q \<noteq> p) ps). \<not> argMatches t q)
          \<longrightarrow> extractAI win ps = (p, True))"
proof
  have m: "argMatches t p" using base by (rule argMatches_basename)
  have "scanProcesses (ForegroundProcesses win) ps \<noteq> None"
    unfolding scanProcesses_None using win cmd p m by auto
  then obtain q where q: "scanProcesses (ForegroundProcesses win) ps = Some q" by auto
  then have "q \<in> set ps" by (rule scanProcesses_Some)
  with q show "\<exists>q \<in> set ps. extractAI win ps = (q, True)"
    by (auto simp: extractAI_def)
next
  have m: "argMatches t p" using base by (rule argMatches_basename)
  show "(\<forall>pr \<in> set before. \<forall>a \<in> set (Cmdline pr). \<forall>q \<in> set ps. \<not> argMatches a q)
          \<and> (\<forall>a \<in> set pre. \<forall>q \<in> set ps. \<not> argMatches a q)
          \<and> (\<forall>q \<in> set (takeWhile (\<lambda>q. q \<noteq> p) ps). \<not> argMatches t q)
          \<longrightarrow> extractAI win ps = (p, True)"
  proof (intro impI, elim conjE)
    assume b: "\<forall>pr \<in> set before. \<forall>a \<in> set (Cmdline pr). \<forall>q \<in> set ps. \<not> argMatches a q"
       and c: "\<forall>a \<in> set pre. \<forall>q \<in> set ps. \<not> argMatches a q"
       and d: "\<forall>q \<in> set (takeWhile (\<lambda>q. q \<noteq> p) ps). \<not> argMatches t q"
    have 1: "scanProcesses before ps = None" using b by (simp add: scanProcesses_None)
    have 2: "scanCmdline pre ps = None" using c by (simp add: scanCmdline_None)
    have 3: "scanPrefixes t ps = Some p" using p m d by (rule scanPrefixes_first)
    have "scanCmdline (Cmdline proc) ps = Some p"
      using 2 3 by (simp add: cmd scanCmdline_append)
    then have "scanProcesses (proc # after) ps = Some p"
      using cmd by simp
    then show "extractAI win ps = (p, True)"
      using 1 by (simp add: extractAI_def win scanProcesses_append)
  qed
qed

text \<open>
  Witness for C5: the window runs \<^verbatim>\<open>node /usr/local/bin/Claude\<close>. The token \<^verbatim>\<open>node\<close>
  matches no prefix, the basename of the second token lower-cases to \<^verbatim>\<open>claude\<close>, and
  the prefix \<^verbatim>\<open>codex\<close> listed before it does not match that token.
\<close>

theorem extractAI_basename_witness:
  "ToLower (basename ''/usr/local/bin/Claude'') = ''claude''
   \<and> extractAI (mkWindow [[''node'', ''/usr/local/bin/Claude'']])
        [''codex'', ''claude'', ''gemini''] = (''claude'', True)"
proof -
  let ?t = "''/usr/local/bin/Claude''"
  let ?ps = "[''codex'', ''claude'', ''gemini'']"
  let ?proc = "\<lparr>Pid = 0, proc_Cwd = [], Cmdline = [''node'', ?t]\<rparr>"
  have w: "ForegroundProcesses (mkWindow [[''node'', ?t]]) = [] @ ?proc # []"
    by (simp add: mkWindow_def)
  have c: "Cmdline ?proc = [''node''] @ ?t # []" by simp
  have p: "''claude'' \<in> set ?ps" by simp
  have b: "ToLower (basename ?t) = ''claude''"
    by (simp add: basename_def LastIndex_def ToLower_def lower_byte_def)
  have h1: "\<forall>pr \<in> set []. \<forall>a \<in> set (Cmdline pr). \<forall>q \<in> set ?ps. \<not> argMatches a q"
    by simp
  have h2: "\<forall>a \<in> set [''node'']. \<forall>q \<in> set ?ps. \<not> argMatches a q"
    by (simp add: argMatches_def basename_def LastIndex_def ToLower_def lower_byte_def)
  have h3: "\<forall>q \<in> set (takeWhile (\<lambda>q. q \<noteq> ''claude'') ?ps). \<not> argMatches ?t q"
    by (simp add: argMatches_def basename_def LastIndex_def ToLower_def lower_byte_def)
  from extractAI_basename [OF w c p b] h1 h2 h3
  have "extractAI (mkWindow [[''node'', ?t]]) ?ps = (''claude'', True)" by blast
  with b show ?thesis by simp
qed

text \<open>
  Claim C6: \<^verbatim>\<open>extractAI\<close> finds a window if and only if a token has a lower-cased basename
  equal to a prefix, or contains \<^verbatim>\<open>/<prefix>/\<close>, or ends with \<^verbatim>\<open>/<prefix>\<close>. The code
  tests \<^verbatim>\<open>strings.Contains(argLower, "/"+p)\<close> where the claim (and the comment above the
  test, "contains the prefix as a component") has a path component: the window whose only
  token is \<^verbatim>\<open>/usr/lib/codex-helper/run.sh\<close> satisfies the claim's condition for none of
  the default prefixes, and the code reports it as a \<^verbatim>\<open>codex\<close> session.
\<close>

theorem path_substring_match:
  "extractAI (mkWindow [[''/usr/lib/codex-helper/run.sh'']]) [''codex'', ''claude'', ''gemini'']
     = (''codex'', True)
   \<and> \<not> (spec_tokenMatch ''/usr/lib/codex-helper/run.sh'' ''codex''
        \<or> spec_tokenMatch ''/usr/lib/codex-helper/run.sh'' ''claude''
        \<or> spec_tokenMatch ''/usr/lib/codex-helper/run.sh'' ''gemini'')"
  by (simp add: extractAI_def mkWindow_def argMatches_def spec_tokenMatch_def basename_def
      LastIndex_def ToLower_def lower_byte_def HasSuffix_def)

section \<open>The status classifier\<close>

lemma inferStatus_range: "inferStatus lines = ''WAITING'' \<or> inferStatus lines = ''IDLE''"
  by (simp add: inferStatus_def Let_def)

text \<open>
  Claim C10: in the variant with fingerprints the status of a session is one of RUNNING,
  IDLE and WAITING, never DONE, whatever the text of the window, the fingerprint table of
  the previous poll and the window id; and \<^verbatim>\<open>inferStatus\<close>, which decides when the
  output is unchanged or on the first poll, only returns WAITING or IDLE.
\<close>

theorem status_never_DONE:
  "loadSessions_status prev winID lines \<in> {''RUNNING'', ''IDLE'', ''WAITING''}
   \<and> loadSessions_status prev winID lines \<noteq> ''DONE''
   \<and> inferStatus lines \<in> {''WAITING'', ''IDLE''}"
  using inferStatus_range [of lines]
  by (auto simp: loadSessions_status_def Let_def)

text \<open>
  Claim C2, as stated: a window with no lines at all is IDLE for every fingerprint state.
  It fails when the previous poll left a fingerprint that is not empty: the empty
  fingerprint of the current poll differs from it, so the output has changed and the
  window is RUNNING.
\<close>

theorem empty_content_counterexample:
  "loadSessions_status [7 \<mapsto> ''Thinking...''] 7 [] = ''RUNNING''"
  by (simp add: loadSessions_status_def currentHash_def lastN_def)

text \<open>
  Claim C2, amended: a window with no lines at all is IDLE when the previous poll left no
  fingerprint for it, or left the empty fingerprint; when the previous fingerprint is not
  empty the window is RUNNING.
\<close>

theorem empty_content_status:
  "loadSessions_status prev winID [] =
     (if prev winID = None \<or> prev winID = Some [] then ''IDLE'' else ''RUNNING'')"
  by (auto simp: loadSessions_status_def currentHash_def lastN_def inferStatus_def ToLower_def
      split: option.splits)

text \<open>
  Claim C3, as stated: on the first poll (no previous fingerprint) a text that matches no
  earlier rule and holds "done", "finished" or "complete" is DONE. In the variant that
  keeps fingerprints the first poll of the line \<^verbatim>\<open>Task completed successfully\<close> is IDLE:
  \<^verbatim>\<open>inferStatus\<close> there has no DONE and no RUNNING rule.
\<close>

theorem first_poll_done_counterexample:
  "loadSessions_status Map.empty 7 [''Task completed successfully''] = ''IDLE''"
  by (simp add: loadSessions_status_def inferStatus_def string_eval)

text \<open>
  Claim C3, amended: in the variant of the classifier that keeps no fingerprint, for every
  non-empty list of lines on which neither the prompt and idle markers nor the WAITING
  markers match, the status is DONE if "done", "finished" or "complete" occurs in the
  lower-cased text of the last 20 lines, and RUNNING otherwise.
\<close>

theorem inferStatus_heuristic_done_or_running:
  assumes "lines \<noteq> []"
      and "\<not> promptRule_heuristic lines"
      and "\<not> waitingRule (chunk_heuristic lines)"
  shows "inferStatus_heuristic lines =
           (if doneRule (chunk_heuristic lines) then ''DONE'' else ''RUNNING'')"
  using assms
  by (simp add: inferStatus_heuristic_def promptRule_heuristic_def waitingRule_def doneRule_def
      chunk_heuristic_def Let_def)

text \<open>
  Witness for C3: the scenario of the specification, the single line
  \<^verbatim>\<open>Task completed successfully\<close>, is DONE in the variant without fingerprints.
\<close>

theorem inferStatus_heuristic_done_witness:
  "[''Task completed successfully''] \<noteq> []
   \<and> \<not> promptRule_heuristic [''Task completed successfully'']
   \<and> \<not> waitingRule (chunk_heuristic [''Task completed successfully''])
   \<and> doneRule (chunk_heuristic [''Task completed successfully''])
   \<and> inferStatus_heuristic [''Task completed successfully''] = ''DONE''"
proof -
  have 1: "[''Task completed successfully''] \<noteq> []" by simp
  have 2: "\<not> promptRule_heuristic [''Task completed successfully'']"
    by (simp add: promptRule_heuristic_def string_eval)
  have 3: "\<not> waitingRule (chunk_heuristic [''Task completed successfully''])"
    by (simp add: waitingRule_def chunk_heuristic_def string_eval)
  have 4: "doneRule (chunk_heuristic [''Task completed successfully''])"
    by (simp add: doneRule_def chunk_heuristic_def string_eval)
  from inferStatus_heuristic_done_or_running [OF 1 2 3] 4
  have "inferStatus_heuristic [''Task completed successfully''] = ''DONE''" by simp
  with 1 2 3 4 show ?thesis by blast
qed

section \<open>Status filtering\<close>

lemma filterLoop_filter: "filterLoop f acc ss = acc @ filter (\<lambda>s. Status s = f) ss"
  by (induction ss arbitrary: acc) auto

lemma filteredSessions_filter:
  "filteredSessions m =
     (if statusFilter m = [] then sessions m
      else filter (\<lambda>s. Status s = statusFilter m) (sessions m))"
  by (simp add: filteredSessions_def filterLoop_filter)


lemma filteredSessions_selected:
  "filteredSessions (m\<lparr>selected := i\<rparr>) = filteredSessions m"
  by (simp add: filteredSessions_def)

lemma length_filtered_le: "length (filteredSessions m) \<le> length (sessions m)"
  by (simp add: filteredSessions_filter)

text \<open>
  Claim C9: \<^verbatim>\<open>filteredSessions\<close> is a function of the session list and the filter alone.
  With the empty filter string it returns all sessions unchanged; with a status \<open>f\<close> it
  returns exactly the sessions whose status is \<open>f\<close>, in their order; and filtering the
  filtered list again by the same filter returns the same list.
\<close>

theorem filteredSessions_projection:
  "filteredSessions (m\<lparr>statusFilter := []\<rparr>) = sessions m
   \<and> (f \<noteq> [] \<longrightarrow>
        filteredSessions (m\<lparr>statusFilter := f\<rparr>) = filter (\<lambda>s. Status s = f) (sessions m))
   \<and> filteredSessions (m\<lparr>sessions := filteredSessions m\<rparr>) = filteredSessions m"
  by (simp add: filteredSessions_filter)

text \<open>
  Witness for C9: three sessions, two of them RUNNING, filtered by RUNNING.
\<close>

theorem filteredSessions_projection_witness:
  "''RUNNING'' \<noteq> []
   \<and> filteredSessions
       ((initModel 1 [] 200)
          \<lparr>sessions := [mkSession 1 ''claude'' ''api'' ''RUNNING'',
                        mkSession 2 ''claude'' ''web'' ''IDLE'',
                        mkSession 3 ''codex'' ''cli'' ''RUNNING''],
           statusFilter := ''RUNNING''\<rparr>)
     = [mkSession 1 ''claude'' ''api'' ''RUNNING'', mkSession 3 ''codex'' ''cli'' ''RUNNING'']"
proof -
  let ?m = "(initModel 1 [] 200)
          \<lparr>sessions := [mkSession 1 ''claude'' ''api'' ''RUNNING'',
                        mkSession 2 ''claude'' ''web'' ''IDLE'',
                        mkSession 3 ''codex'' ''cli'' ''RUNNING'']\<rparr>"
  have ne: "''RUNNING'' \<noteq> []" by simp
  from filteredSessions_projection [of ?m "''RUNNING''"] ne
  have "filteredSessions (?m\<lparr>statusFilter := ''RUNNING''\<rparr>)
          = filter (\<lambda>s. Status s = ''RUNNING'') (sessions ?m)" by blast
  then show ?thesis by (simp add: mkSession_def)
qed

section \<open>A failed poll\<close>

lemmas machine_eval =
  Update_def updateBrowsing_def updateRenaming_def clampSelected_def filteredSessions_def
  availableStatuses_def key_String_def keyNames_def mkKey_def mkSession_def initModel_def
  go_rem_def refreshCmd_msg_def Let_def

text \<open>
  Claim C8, as stated: the error recorded by a failed poll is overwritten by the next
  successful poll. It is not: \<^verbatim>\<open>Update\<close> assigns \<^verbatim>\<open>m.err\<close> in the \<^verbatim>\<open>error\<close> and
  \<^verbatim>\<open>renameResultMsg\<close> cases only, so after a failed poll and then a successful one
  the error of the failed poll is still recorded.
\<close>

theorem error_survives_poll_counterexample:
  "err (run [(1, refreshCmd_msg (Inl ''kitty @ ls: exit status 1'')),
             (2, refreshCmd_msg (Inr ([], Map.empty)))]
            (initModel 1 [''codex'', ''claude'', ''gemini''] 200))
     = Some ''kitty @ ls: exit status 1''"
  by (simp add: Update_def refreshCmd_msg_def clampSelected_def Let_def initModel_def)

text \<open>
  Claim C8, amended: when a poll fails, \<^verbatim>\<open>Update\<close> changes the recorded error and the
  time of the last update and nothing else: the session snapshot and the fingerprint table
  (and the selection, the filter and the rename state) are as before. The recorded error
  is overwritten by a new error (of a poll or of a rename); a later successful poll leaves
  it in place.
\<close>

theorem poll_failure_effect:
  "Update now (refreshCmd_msg (Inl e)) m = (m\<lparr>err := Some e, lastUpdate := now\<rparr>, NoCmd)
   \<and> sessions (fst (Update now (refreshCmd_msg (Inl e)) m)) = sessions m
   \<and> prevHashes (fst (Update now (refreshCmd_msg (Inl e)) m)) = prevHashes m
   \<and> err (fst (Update now (refreshCmd_msg (Inl e)) m)) = Some e
   \<and> err (fst (Update now (RenameResultMsg (Some e)) m)) = Some e
   \<and> err (fst (Update now (refreshCmd_msg (Inr (ss, hashes))) m)) = err m"
  by (simp add: Update_def refreshCmd_msg_def clampSelected_def Let_def)

section \<open>The order of the sessions\<close>









section \<open>The selection index\<close>

lemma selectionInvariant_cong:
  "sessions m' = sessions m \<Longrightarrow> statusFilter m' = statusFilter m \<Longrightarrow> selected m' = selected m
   \<Longrightarrow> selectionInvariant m' = selectionInvariant m"
  by (simp add: selectionInvariant_def filteredSessions_def)

lemma selectionInvariant_zero:
  "selected m = 0 \<Longrightarrow> selectionInvariant m"
  by (simp add: selectionInvariant_def)

lemma selectionInvariant_unfilter:
  assumes "selectionInvariant m"
  shows "selectionInvariant (m\<lparr>statusFilter := [], focusedPanel := 0\<rparr>)"
proof (cases "filteredSessions m = []")
  case True
  with assms have "selected m = 0" by (simp add: selectionInvariant_def)
  then show ?thesis by (simp add: selectionInvariant_zero)
next
  case False
  with assms have "0 \<le> selected m" "selected m < int (length (filteredSessions m))"
    by (simp_all add: selectionInvariant_def)
  moreover have "length (filteredSessions m) \<le> length (sessions m)" by (rule length_filtered_le)
  ultimately show ?thesis by (auto simp: selectionInvariant_def filteredSessions_def)
qed

lemma updateRenaming_selection:
  "selectionInvariant m \<Longrightarrow> selectionInvariant (fst (updateRenaming k m))"
  by (cases "key_Type k")
     (auto simp: updateRenaming_def Let_def selectionInvariant_def filteredSessions_def)

lemma ub_quit:
  assumes "key_String k = ''q'' \<or> key_String k = ''ctrl+c''"
  shows "fst (updateBrowsing k m) = m"
  using assms by (auto simp: updateBrowsing_def)

lemma ub_tab:
  assumes "key_String k = ''tab''"
  shows "fst (updateBrowsing k m) = m\<lparr>focusedPanel := go_rem (focusedPanel m + 1) 2\<rparr>"
  unfolding updateBrowsing_def Let_def assms by simp

lemma ub_esc:
  assumes "key_String k = ''esc''"
  shows "fst (updateBrowsing k m) = m\<lparr>statusFilter := [], focusedPanel := 0\<rparr>"
  unfolding updateBrowsing_def Let_def assms by simp

lemma ub_enter:
  assumes "key_String k = ''enter''"
  shows "fst (updateBrowsing k m) =
     (if focusedPanel m \<noteq> 0 \<and> statusSelected m \<ge> 0
         \<and> statusSelected m < int (length (availableStatuses m))
      then m\<lparr>statusFilter :=
               (if statusFilter m = availableStatuses m ! nat (statusSelected m) then []
                else availableStatuses m ! nat (statusSelected m)),
             selected := 0, focusedPanel := 0\<rparr>
      else m)"
  unfolding updateBrowsing_def Let_def assms by simp

lemma ub_r:
  assumes "key_String k = ''r''"
  shows "fst (updateBrowsing k m) =
     (if focusedPanel m = 0 \<and> length (filteredSessions m) > 0 \<and> selected m \<ge> 0
         \<and> selected m < int (length (filteredSessions m))
      then m\<lparr>renaming := True, renameInput := Title (filteredSessions m ! nat (selected m))\<rparr>
      else m)"
  unfolding updateBrowsing_def Let_def assms by simp

lemma ub_up:
  assumes "key_String k = ''up'' \<or> key_String k = ''k''"
  shows "fst (updateBrowsing k m) =
     (if focusedPanel m = 0
      then (if selected m > 0 then m\<lparr>selected := selected m - 1\<rparr> else m)
      else m\<lparr>statusSelected :=
               (if statusSelected m > 0 then statusSelected m - 1
                else int (length (availableStatuses m)) - 1)\<rparr>)"
proof -
  from assms consider (a) "key_String k = ''up''" | (b) "key_String k = ''k''" by blast
  then show ?thesis
  proof cases
    case a
    show ?thesis unfolding updateBrowsing_def Let_def a by simp
  next
    case b
    show ?thesis unfolding updateBrowsing_def Let_def b by simp
  qed
qed

lemma ub_down:
  assumes "key_String k = ''down'' \<or> key_String k = ''j''"
  shows "fst (updateBrowsing k m) =
     (if focusedPanel m = 0
      then (if selected m < int (length (filteredSessions m)) - 1
            then m\<lparr>selected := selected m + 1\<rparr> else m)
      else m\<lparr>statusSelected :=
               (if statusSelected m < int (length (availableStatuses m)) - 1
                then statusSelected m + 1 else 0)\<rparr>)"
proof -
  from assms consider (a) "key_String k = ''down''" | (b) "key_String k = ''j''" by blast
  then show ?thesis
  proof cases
    case a
    show ?thesis unfolding updateBrowsing_def Let_def a by simp
  next
    case b
    show ?thesis unfolding updateBrowsing_def Let_def b by simp
  qed
qed

lemma ub_other:
  assumes "key_String k \<noteq> ''q''" "key_String k \<noteq> ''ctrl+c''" "key_String k \<noteq> ''tab''"
    "key_String k \<noteq> ''esc''" "key_String k \<noteq> ''enter''" "key_String k \<noteq> ''r''"
    "key_String k \<noteq> ''up''" "key_String k \<noteq> ''k''" "key_String k \<noteq> ''down''"
    "key_String k \<noteq> ''j''"
  shows "fst (updateBrowsing k m) = m"
  using assms by (simp add: updateBrowsing_def)

lemma updateBrowsing_cases:
  obtains (same) "sessions (fst (updateBrowsing k m)) = sessions m"
                 "statusFilter (fst (updateBrowsing k m)) = statusFilter m"
                 "selected (fst (updateBrowsing k m)) = selected m"
        | (esc) "fst (updateBrowsing k m) = m\<lparr>statusFilter := [], focusedPanel := 0\<rparr>"
        | (toggle) "selected (fst (updateBrowsing k m)) = 0"
        | (up) "selected m > 0" "fst (updateBrowsing k m) = m\<lparr>selected := selected m - 1\<rparr>"
        | (down) "selected m < int (length (filteredSessions m)) - 1"
                 "fst (updateBrowsing k m) = m\<lparr>selected := selected m + 1\<rparr>"
proof -
  let ?s = "key_String k"
  consider "?s = ''q'' \<or> ?s = ''ctrl+c''" | "?s = ''tab''" | "?s = ''esc''" | "?s = ''enter''"
    | "?s = ''r''" | "?s = ''up'' \<or> ?s = ''k''" | "?s = ''down'' \<or> ?s = ''j''"
    | "?s \<noteq> ''q''" "?s \<noteq> ''ctrl+c''" "?s \<noteq> ''tab''" "?s \<noteq> ''esc''" "?s \<noteq> ''enter''"
      "?s \<noteq> ''r''" "?s \<noteq> ''up''" "?s \<noteq> ''k''" "?s \<noteq> ''down''" "?s \<noteq> ''j''"
    by blast
  then show thesis
  proof cases
    case 1
    show thesis by (rule same) (simp_all add: ub_quit [OF 1])
  next
    case 2
    show thesis by (rule same) (simp_all add: ub_tab [OF 2])
  next
    case 3
    show thesis by (rule esc) (rule ub_esc [OF 3])
  next
    case 4
    show thesis
    proof (cases "focusedPanel m \<noteq> 0 \<and> statusSelected m \<ge> 0
                  \<and> statusSelected m < int (length (availableStatuses m))")
      case True
      then have "selected (fst (updateBrowsing k m)) = 0" by (simp add: ub_enter [OF 4])
      then show thesis by (rule toggle)
    next
      case False
      have eq: "fst (updateBrowsing k m) = m"
        unfolding ub_enter [OF 4] using False by (rule if_not_P)
      show thesis by (rule same) (simp_all add: eq)
    qed
  next
    case 5
    show thesis by (rule same) (simp_all add: ub_r [OF 5])
  next
    case 6
    show thesis
    proof (cases "focusedPanel m = 0 \<and> selected m > 0")
      case True
      then have "fst (updateBrowsing k m) = m\<lparr>selected := selected m - 1\<rparr>"
        by (simp add: ub_up [OF 6])
      with True show thesis by (intro up) simp_all
    next
      case False
      then have "sessions (fst (updateBrowsing k m)) = sessions m"
        "statusFilter (fst (updateBrowsing k m)) = statusFilter m"
        "selected (fst (updateBrowsing k m)) = selected m"
        by (auto simp: ub_up [OF 6])
      then show thesis by (rule same)
    qed
  next
    case 7
    show thesis
    proof (cases "focusedPanel m = 0 \<and> selected m < int (length (filteredSessions m)) - 1")
      case True
      then have "fst (updateBrowsing k m) = m\<lparr>selected := selected m + 1\<rparr>"
        by (simp add: ub_down [OF 7])
      with True show thesis by (intro down) simp_all
    next
      case False
      then have "sessions (fst (updateBrowsing k m)) = sessions m"
        "statusFilter (fst (updateBrowsing k m)) = statusFilter m"
        "selected (fst (updateBrowsing k m)) = selected m"
        by (auto simp: ub_down [OF 7])
      then show thesis by (rule same)
    qed
  next
    case 8
    show thesis by (rule same) (simp_all add: ub_other [OF 8])
  qed
qed

lemma updateBrowsing_selection:
  assumes "selectionInvariant m"
  shows "selectionInvariant (fst (updateBrowsing k m))"
  using updateBrowsing_cases [of k m]
proof cases
  case same
  then have "selectionInvariant (fst (updateBrowsing k m)) = selectionInvariant m"
    by (rule selectionInvariant_cong)
  with assms show ?thesis by simp
next
  case esc
  then show ?thesis using selectionInvariant_unfilter [OF assms] by simp
next
  case toggle
  then show ?thesis by (rule selectionInvariant_zero)
next
  case up
  have "selectionInvariant (m\<lparr>selected := selected m - 1\<rparr>)"
    using assms up(1)
    by (simp add: selectionInvariant_def filteredSessions_selected split: if_splits)
  then show ?thesis by (simp only: up(2))
next
  case down
  have "selectionInvariant (m\<lparr>selected := selected m + 1\<rparr>)"
    using assms down(1)
    by (simp add: selectionInvariant_def filteredSessions_selected split: if_splits)
  then show ?thesis by (simp only: down(2))
qed

text \<open>
  Every key event keeps the selection invariant: the moves, the filter toggle, the clearing
  of the filter, and every key of the rename mode.
\<close>

theorem selection_invariant_keys:
  "selectionInvariant m \<Longrightarrow> selectionInvariant (fst (Update now (KeyMsg k) m))"
  by (simp add: Update_def updateRenaming_selection updateBrowsing_selection)

text \<open>
  Witness: with two sessions and the first selected, the key \<^verbatim>\<open>down\<close> keeps the
  invariant.
\<close>

theorem selection_invariant_keys_witness:
  "selectionInvariant
     ((initModel 1 [] 200)
        \<lparr>sessions := [mkSession 1 ''claude'' ''api'' ''IDLE'',
                      mkSession 2 ''claude'' ''web'' ''IDLE'']\<rparr>)
   \<and> selectionInvariant
       (fst (Update 1 (KeyMsg (mkKey KeyDown []))
          ((initModel 1 [] 200)
             \<lparr>sessions := [mkSession 1 ''claude'' ''api'' ''IDLE'',
                           mkSession 2 ''claude'' ''web'' ''IDLE'']\<rparr>)))"
proof -
  let ?m = "(initModel 1 [] 200)
        \<lparr>sessions := [mkSession 1 ''claude'' ''api'' ''IDLE'',
                      mkSession 2 ''claude'' ''web'' ''IDLE'']\<rparr>"
  have inv: "selectionInvariant ?m"
    by (simp add: selectionInvariant_def filteredSessions_def initModel_def)
  from selection_invariant_keys [OF inv, of 1 "mkKey KeyDown []"] inv show ?thesis by simp
qed

text \<open>
  A new snapshot keeps the selection invariant while no status filter is active: the clamp
  of the \<^verbatim>\<open>sessionsMsg\<close> case compares the selection with the length of the whole list.
\<close>

theorem selection_invariant_poll_unfiltered:
  assumes "statusFilter m = []" and "0 \<le> selected m"
  shows "selectionInvariant (fst (Update now (SessionsMsg ss hashes) m))"
  using assms
  by (auto simp: Update_def clampSelected_def Let_def selectionInvariant_def filteredSessions_def)

text \<open>
  Witness: the third of three sessions is selected and the next poll finds one session.
\<close>

theorem selection_invariant_poll_unfiltered_witness:
  "selectionInvariant
     (fst (Update 1 (SessionsMsg [mkSession 1 ''claude'' ''api'' ''IDLE''] Map.empty)
        ((initModel 1 [] 200)
           \<lparr>sessions := [mkSession 1 ''claude'' ''api'' ''IDLE'',
                         mkSession 2 ''claude'' ''web'' ''IDLE'',
                         mkSession 3 ''codex'' ''cli'' ''IDLE''],
            selected := 2\<rparr>)))"
proof -
  let ?m = "(initModel 1 [] 200)
           \<lparr>sessions := [mkSession 1 ''claude'' ''api'' ''IDLE'',
                         mkSession 2 ''claude'' ''web'' ''IDLE'',
                         mkSession 3 ''codex'' ''cli'' ''IDLE''],
            selected := 2\<rparr>"
  have 1: "statusFilter ?m = []" by (simp add: initModel_def)
  have 2: "0 \<le> selected ?m" by simp
  from selection_invariant_poll_unfiltered [OF 1 2] show ?thesis .
qed

text \<open>
  Claim C1: after every sequence of moves, filter toggles and snapshot replacements the
  selection is inside the filtered list (or 0 when that list is empty). The clamp of the
  \<^verbatim>\<open>sessionsMsg\<close> case uses \<^verbatim>\<open>len(m.sessions)\<close> where the move-down case uses the
  length of the filtered list. Failing input: two RUNNING sessions arrive, the filter is
  set to RUNNING through the status panel, the selection moves down to index 1, and the
  next poll reports the first session as IDLE. The selection stays 1 and the filtered list
  has one session.
\<close>

theorem selection_after_poll_under_filter:
  "(let m = run [(1, SessionsMsg [mkSession 1 ''claude'' ''api'' ''RUNNING'',
                                  mkSession 2 ''claude'' ''web'' ''RUNNING''] Map.empty),
                 (2, KeyMsg (mkKey KeyTab [])),
                 (3, KeyMsg (mkKey KeyEnter [])),
                 (4, KeyMsg (mkKey KeyDown [])),
                 (5, SessionsMsg [mkSession 1 ''claude'' ''api'' ''IDLE'',
                                  mkSession 2 ''claude'' ''web'' ''RUNNING''] Map.empty)]
                (initModel 1 [''codex'', ''claude'', ''gemini''] 200)
    in statusFilter m = ''RUNNING'' \<and> selected m = 1
       \<and> filteredSessions m = [mkSession 2 ''claude'' ''web'' ''RUNNING'']
       \<and> \<not> selectionInvariant m)"
  by (simp add: machine_eval selectionInvariant_def)

section \<open>The target of a rename\<close>








end
